theory Spec2Isabelle
  imports Main "HOL-Library.Word"
begin

unbundle bit_operations_syntax

section \<open>Exceptions\<close>

text \<open>
  Every rejection in the services is a thrown exception. \<open>HttpException\<close> carries the
  message code and the HTTP status it was constructed with; anything else that escapes a
  handler (a \<open>TypeError\<close> on a null session, an error thrown by the cipher) is not an
  \<open>HttpException\<close> and is kept apart.
\<close>

datatype HttpStatus = UNAUTHORIZED | FORBIDDEN | NOT_FOUND | CONFLICT | INTERNAL_SERVER_ERROR

datatype JwtError = TokenExpiredError | JsonWebTokenError | NotBeforeError

datatype exn =
    HttpException string HttpStatus
  | JwtException JwtError
  | TypeError
  | CryptoError

section \<open>Permission resolver (authorization.service.ts)\<close>

type_synonym Permission = string

record RoleModel =
  roleId :: string
  title :: string
  roleIncludedPermissions :: "Permission list"
  roleExcludedPermissions :: "Permission list"

text \<open>
  \<open>UserAuthorizationCredentialsModel\<close>: the user's own permissions are JavaScript
  \<open>Set\<close>s, the roles carry arrays.
\<close>

record UserAuthorizationCredentialsModel =
  roles :: "RoleModel list"
  includedPermissions :: "Permission set"
  excludedPermissions :: "Permission set"
  administratorAccess :: bool

text \<open>
  \<open>AuthorizationService.hasPermission\<close>. The lookup
  \<open>identityService.getUserAuthorizationCredentials\<close> is the first argument; it is
  only called once the required list is known to be non-empty, and its exception is
  passed on.
\<close>

definition hasPermission ::
  "(string \<Rightarrow> exn + UserAuthorizationCredentialsModel) \<Rightarrow> string \<Rightarrow> Permission list \<Rightarrow> exn + bool"
where
  "hasPermission getUserAuthorizationCredentials userId requiredPermissions =
    (if length requiredPermissions = 0 then Inr True
     else case getUserAuthorizationCredentials userId of
       Inl e \<Rightarrow> Inl e
     | Inr creds \<Rightarrow>
         if administratorAccess creds then Inr True
         else
           let userExcluded = excludedPermissions creds;
               userIncluded = includedPermissions creds;
               roleExcluded = set (concat (map roleExcludedPermissions (roles creds)));
               roleIncluded = set (concat (map roleIncludedPermissions (roles creds)))
           in if list_ex (\<lambda>perm. perm \<in> userExcluded \<or> perm \<in> roleExcluded) requiredPermissions
              then Inr False
              else
                let effective = Set.filter (\<lambda>p. p \<notin> roleExcluded) roleIncluded
                              \<union> Set.filter (\<lambda>p. p \<notin> userExcluded) userIncluded
                in Inr (list_all (\<lambda>p. p \<in> effective) requiredPermissions))"

text \<open>The grant set of the specification's example: role R1 includes A and B, role R2 excludes A.\<close>

definition exampleGrants :: UserAuthorizationCredentialsModel where
  "exampleGrants =
     \<lparr> roles =
         [\<lparr> roleId = ''r1'', title = ''R1'', roleIncludedPermissions = [''A'', ''B''], roleExcludedPermissions = [] \<rparr>,
          \<lparr> roleId = ''r2'', title = ''R2'', roleIncludedPermissions = [], roleExcludedPermissions = [''A''] \<rparr>],
       includedPermissions = {},
       excludedPermissions = {},
       administratorAccess = False \<rparr>"


section \<open>Transport crypto (crypto.service.ts)\<close>

type_synonym byte = "8 word"
type_synonym bytes = "byte list"

subsection \<open>Base64 text encoding of buffers\<close>

text \<open>
  \<open>Buffer.toString('base64')\<close> writes three bytes as four characters of the standard
  alphabet and pads the last group with \<open>=\<close>. \<open>Buffer.from(token, 'base64')\<close> is
  forgiving: a character outside the alphabet is skipped (the URL-safe \<open>-\<close> and \<open>_\<close>
  count as 62 and 63), the first \<open>=\<close> ends the input, and the bits of a last partial
  group that do not fill a byte are dropped.
\<close>

definition b64alphabet :: string where
  "b64alphabet = ''ABCDEFGHIJKLMNOPQRSTUVWXYZabcdefghijklmnopqrstuvwxyz0123456789+/''"

definition b64char :: "nat \<Rightarrow> char" where
  "b64char n = b64alphabet ! n"

fun base64Encode :: "bytes \<Rightarrow> string" where
  "base64Encode (a # b # c # rest) =
     b64char (unat a div 4)
     # b64char ((unat a mod 4) * 16 + unat b div 16)
     # b64char ((unat b mod 16) * 4 + unat c div 64)
     # b64char (unat c mod 64)
     # base64Encode rest"
| "base64Encode [a, b] =
     [b64char (unat a div 4),
      b64char ((unat a mod 4) * 16 + unat b div 16),
      b64char ((unat b mod 16) * 4),
      CHR ''='']"
| "base64Encode [a] =
     [b64char (unat a div 4), b64char ((unat a mod 4) * 16), CHR ''='', CHR ''='']"
| "base64Encode [] = []"

fun indexOf :: "'a \<Rightarrow> 'a list \<Rightarrow> nat option" where
  "indexOf c [] = None"
| "indexOf c (x # xs) = (if c = x then Some 0 else map_option Suc (indexOf c xs))"

definition unbase64 :: "char \<Rightarrow> nat option" where
  "unbase64 c =
     (if c = CHR ''-'' then Some 62
      else if c = CHR ''_'' then Some 63
      else indexOf c b64alphabet)"

fun decodeSextets :: "nat list \<Rightarrow> bytes" where
  "decodeSextets (h1 # h2 # h3 # h4 # rest) =
     of_nat (h1 * 4 + h2 div 16)
     # of_nat ((h2 mod 16) * 16 + h3 div 4)
     # of_nat ((h3 mod 4) * 64 + h4)
     # decodeSextets rest"
| "decodeSextets [h1, h2, h3] =
     [of_nat (h1 * 4 + h2 div 16), of_nat ((h2 mod 16) * 16 + h3 div 4)]"
| "decodeSextets [h1, h2] = [of_nat (h1 * 4 + h2 div 16)]"
| "decodeSextets [h1] = []"
| "decodeSextets [] = []"

definition base64Decode :: "string \<Rightarrow> bytes" where
  "base64Decode token =
     decodeSextets (List.map_filter unbase64 (takeWhile (\<lambda>c. c \<noteq> CHR ''='') token))"

subsection \<open>CryptoService\<close>

text \<open>
  The cipher and the UTF-8 codec belong to the Node runtime, not to this repository: they
  are fields of the service record, next to the configured key. \<open>gcmEncrypt key iv data\<close>
  stands for \<open>createCipheriv\<close>, \<open>update\<close>, \<open>final\<close> and \<open>getAuthTag\<close> and returns the
  ciphertext with its tag; \<open>gcmDecrypt key iv authTag data\<close> stands for
  \<open>createDecipheriv\<close>, \<open>setAuthTag\<close>, \<open>update\<close> and \<open>final\<close>, and is \<open>None\<close> where
  one of them throws.
\<close>

record CryptoService =
  key :: bytes
  gcmEncrypt :: "bytes \<Rightarrow> bytes \<Rightarrow> bytes \<Rightarrow> bytes \<times> bytes"
  gcmDecrypt :: "bytes \<Rightarrow> bytes \<Rightarrow> bytes \<Rightarrow> bytes \<Rightarrow> bytes option"
  utf8Encode :: "string \<Rightarrow> bytes"
  utf8Decode :: "bytes \<Rightarrow> string"

text \<open>\<open>encryptString\<close>; the argument \<open>iv\<close> is the draw of \<open>crypto.randomBytes(12)\<close>.\<close>

definition encryptString :: "CryptoService \<Rightarrow> bytes \<Rightarrow> string \<Rightarrow> string" where
  "encryptString cs iv val =
     (let (encrypted, authTag) = gcmEncrypt cs (key cs) iv (utf8Encode cs val)
      in base64Encode (iv @ authTag @ encrypted))"

text \<open>\<open>decryptString\<close>; \<open>subarray(0, 12)\<close>, \<open>subarray(12, 28)\<close> and \<open>subarray(28)\<close> clamp to the buffer.\<close>

definition decryptString :: "CryptoService \<Rightarrow> string \<Rightarrow> string option" where
  "decryptString cs token =
     (let raw = base64Decode token;
          iv = take 12 raw;
          authTag = take 16 (drop 12 raw);
          encrypted = drop 28 raw
      in map_option (utf8Decode cs) (gcmDecrypt cs (key cs) iv authTag encrypted))"

text \<open>Flipping bit \<open>k\<close> of the character at position \<open>i\<close> of a token.\<close>

definition flipBit :: "nat \<Rightarrow> nat \<Rightarrow> string \<Rightarrow> string" where
  "flipBit i k token = token[i := char_of ((of_char (token ! i) :: nat) XOR 2 ^ k)]"


section \<open>Data model\<close>

text \<open>
  \<open>BaseModel\<close> (common/model/base.model.ts). Times are Unix seconds, as
  \<open>generateUnixTime\<close> returns them. The field \<open>id\<close> is written \<open>id'\<close>.
\<close>

record BaseModel =
  id' :: string
  createdAt :: int
  updatedAt :: int
  deletedAt :: "int option"

text \<open>
  Modelled from the spec: the enum \<open>PLATFORMS\<close> (authentication/enum/platforms.enum.ts).
  The spec names the platforms web, mobile and desktop; the sign-in DTO validates the
  field with \<open>IsEnum\<close> and gives \<open>web\<close> and \<open>mobile\<close> as examples, so the values are
  strings.
\<close>

type_synonym PLATFORMS = string

record SessionModel = BaseModel +
  user :: string
  ipAddress :: string
  userAgent :: string
  accessToken :: string
  refreshToken :: string
  startedAt :: int
  endsAt :: int
  platform :: PLATFORMS

text \<open>\<open>UserModel\<close>, without the contact, team and scope fields, which no operation below reads.\<close>

record UserModel = BaseModel +
  username :: string
  firstName :: string
  lastName :: string
  email :: string
  userRoles :: "string list"
  userIncludedPermissions :: "string list"
  userExcludedPermissions :: "string list"
  userAdministratorAccess :: bool

record UserEntity = UserModel +
  userPassword :: string

record UserAuthenticationCredentialsModel =
  authId :: string
  authEmail :: string
  authUsername :: string
  authPassword :: string

definition toModel :: "UserEntity \<Rightarrow> UserModel" where
  "toModel doc =
     \<lparr> id' = id' doc, createdAt = createdAt doc, updatedAt = updatedAt doc, deletedAt = deletedAt doc,
       username = username doc, firstName = firstName doc, lastName = lastName doc, email = email doc,
       userRoles = userRoles doc, userIncludedPermissions = userIncludedPermissions doc,
       userExcludedPermissions = userExcludedPermissions doc,
       userAdministratorAccess = userAdministratorAccess doc \<rparr>"

definition toAuthenticationCredentialsModel :: "UserEntity \<Rightarrow> UserAuthenticationCredentialsModel" where
  "toAuthenticationCredentialsModel doc =
     \<lparr> authId = id' doc, authEmail = email doc, authUsername = username doc,
       authPassword = userPassword doc \<rparr>"

section \<open>Collections and the Mongoose plugins\<close>

text \<open>
  Modelled from the spec: the soft-delete plugin (services/mongodb/soft-delete.plugin.ts),
  which the connection applies to every schema. In the spec's data model the tombstone
  of a session is its optional field \<open>deletedAt\<close>, written by sign-out, and a session
  that has been signed out can be loaded and signed out again. The database architecture
  notes give the plugin's own mechanism: it adds the flag \<open>isDeleted\<close> (default false)
  to every schema, and a query middleware on \<open>find\<close>, \<open>findOne\<close> and
  \<open>findOneAndUpdate\<close> keeps the documents with \<open>isDeleted \<noteq> true\<close>; \<open>deleteMany\<close>
  has no middleware. A stored document is therefore the entity's fields together with
  that flag. No operation of the session code sets the flag: \<open>deleteSessionById\<close>
  writes \<open>deletedAt\<close> only.

  The timestamp plugin (timespan-unix-converter.ts) sets \<open>createdAt\<close> and \<open>updatedAt\<close>
  on save and \<open>updatedAt\<close> on \<open>findOneAndUpdate\<close>.
\<close>

record 'a Document =
  entity :: 'a
  isDeleted :: bool

type_synonym SessionCollection = "SessionModel Document list"
type_synonym UserCollection = "UserEntity Document list"

fun updateFirst :: "('a \<Rightarrow> bool) \<Rightarrow> ('a \<Rightarrow> 'a) \<Rightarrow> 'a list \<Rightarrow> 'a list" where
  "updateFirst P f [] = []"
| "updateFirst P f (x # xs) = (if P x then f x # xs else x # updateFirst P f xs)"

subsection \<open>UserRepositoryService and IdentityService\<close>

definition findUserByCredentials :: "UserCollection \<Rightarrow> string \<Rightarrow> UserAuthenticationCredentialsModel option" where
  "findUserByCredentials users ident =
     (case filter (\<lambda>d. \<not> isDeleted d \<and> (username (entity d) = ident \<or> email (entity d) = ident)) users of
        [] \<Rightarrow> None
      | d # _ \<Rightarrow> Some (toAuthenticationCredentialsModel (entity d)))"

definition findUserById :: "UserCollection \<Rightarrow> string \<Rightarrow> UserModel option" where
  "findUserById users uid =
     map_option (\<lambda>d. toModel (entity d)) (find (\<lambda>d. \<not> isDeleted d \<and> id' (entity d) = uid) users)"

text \<open>
  \<open>IdentityService.getUserByCredentials\<close> throws when the repository finds nothing, so
  its caller never sees \<open>null\<close>; the result keeps the declared nullable type so that the
  caller's own check stays visible.
\<close>

definition getUserByCredentials ::
  "UserCollection \<Rightarrow> string \<Rightarrow> exn + UserAuthenticationCredentialsModel option" where
  "getUserByCredentials users ident =
     (case findUserByCredentials users ident of
        None \<Rightarrow> Inl (HttpException ''INVALID_CREDENTIALS'' NOT_FOUND)
      | Some userCredentialsModel \<Rightarrow> Inr (Some userCredentialsModel))"

definition getUserById :: "UserCollection \<Rightarrow> string \<Rightarrow> exn + UserModel" where
  "getUserById users uid =
     (case findUserById users uid of
        None \<Rightarrow> Inl (HttpException ''USER_NOT_FOUND'' NOT_FOUND)
      | Some userModel \<Rightarrow> Inr userModel)"

subsection \<open>SessionRepositoryService and AuthSessionService\<close>

text \<open>
  \<open>createSession\<close>: the store generates the id (argument \<open>newId\<close>); \<open>now\<close> is the
  clock reading of the save hook. \<open>AuthSessionService\<close> forwards each call unchanged,
  \<open>createSession\<close> returning the id only and \<open>deleteSession\<close> dropping the flag.
\<close>

definition createSession ::
  "SessionCollection \<Rightarrow> SessionModel \<Rightarrow> string \<Rightarrow> int \<Rightarrow> SessionCollection \<times> string" where
  "createSession sessions createSessionModel newId now =
     (let saved = \<lparr> entity = createSessionModel\<lparr> id' := newId, createdAt := now, updatedAt := now \<rparr>,
                     isDeleted = False \<rparr>
      in (sessions @ [saved], id' (entity saved)))"

definition getSessionById :: "SessionCollection \<Rightarrow> string \<Rightarrow> SessionModel option" where
  "getSessionById sessions sessionId =
     map_option entity (find (\<lambda>d. \<not> isDeleted d \<and> id' (entity d) = sessionId) sessions)"

definition updateSessionTokens ::
  "SessionCollection \<Rightarrow> string \<Rightarrow> string \<times> string \<Rightarrow> int \<Rightarrow> SessionCollection" where
  "updateSessionTokens sessions sessionId tokens now =
     updateFirst (\<lambda>d. \<not> isDeleted d \<and> id' (entity d) = sessionId)
       (\<lambda>d. d\<lparr> entity := (entity d)\<lparr> accessToken := fst tokens, refreshToken := snd tokens,
                                     updatedAt := now \<rparr> \<rparr>)
       sessions"



definition deleteSessionsByUserIdAndPlatform ::
  "SessionCollection \<Rightarrow> string \<Rightarrow> PLATFORMS \<Rightarrow> SessionCollection" where
  "deleteSessionsByUserIdAndPlatform sessions userId pf =
     filter (\<lambda>d. \<not> (user (entity d) = userId \<and> platform (entity d) = pf)) sessions"

definition invalidateOtherSessions ::
  "SessionCollection \<Rightarrow> string \<Rightarrow> PLATFORMS \<Rightarrow> SessionCollection" where
  "invalidateOtherSessions sessions userId pf = deleteSessionsByUserIdAndPlatform sessions userId pf"

text \<open>
  \<open>CreateSessionModel.requestToSessionModel\<close>. The base fields stay unset until the
  document is saved; \<open>maxAge\<close> is the session cookie's age in milliseconds.
\<close>

definition requestToSessionModel ::
  "string \<Rightarrow> string \<Rightarrow> string \<Rightarrow> PLATFORMS \<Rightarrow> string \<Rightarrow> string \<Rightarrow> int \<Rightarrow> int \<Rightarrow> SessionModel" where
  "requestToSessionModel usr ip agent pf accessTok refreshTok maxAge now =
     \<lparr> id' = [], createdAt = 0, updatedAt = 0, deletedAt = None,
       user = usr, ipAddress = ip, userAgent = agent,
       accessToken = accessTok, refreshToken = refreshTok,
       startedAt = now, endsAt = now + maxAge div 1000, platform = pf \<rparr>"


section \<open>AuthenticationService (authentication.service.ts)\<close>

text \<open>
  The payload of a signed token: the user snapshot and, in a refresh token, the access
  token it was issued with.
\<close>

record JwtPayload =
  payloadUser :: UserModel
  payloadAccessToken :: "string option"

text \<open>
  The injected collaborators that are not part of the repository: \<open>bcrypt.compare\<close>,
  \<open>JwtService.sign\<close> and \<open>JwtService.verifyAsync\<close> (with the configured secret and
  algorithm; both read the clock), and the configured lifetimes. \<open>sessionCookieMaxAge\<close>
  is \<open>timeToSeconds(SESSION_EXPIRATION) * 1000\<close>.
\<close>

record AuthenticationService =
  cryptoService :: CryptoService
  bcryptCompare :: "string \<Rightarrow> string \<Rightarrow> bool"
  jwtSign :: "JwtPayload \<Rightarrow> string \<Rightarrow> int \<Rightarrow> string"
  jwtVerifyAsync :: "string \<Rightarrow> int \<Rightarrow> JwtError + JwtPayload"
  ACCESS_TOKEN_EXPIRATION :: string
  REFRESH_TOKEN_EXPIRATION :: string
  sessionCookieMaxAge :: int

record SignInModel =
  identifier' :: string
  password :: string
  clientIpAddress :: string
  clientUserAgent :: string
  clientPlatform :: PLATFORMS

text \<open>
  \<open>RefreshSessionModel\<close>, its fields under the names \<open>refresh\<close> binds them to.
\<close>

record RefreshSessionModel =
  encryptedAccessToken :: string
  encryptedRefreshToken :: string
  encryptedSessionId :: string

text \<open>\<open>AuthenticationCredentialsModel\<close>, without the three constant cookie option records.\<close>

record AuthenticationCredentialsModel =
  credUser :: UserModel
  credAccessToken :: string
  credRefreshToken :: string
  credSessionId :: string

definition generateAccessToken :: "AuthenticationService \<Rightarrow> UserModel \<Rightarrow> int \<Rightarrow> string" where
  "generateAccessToken svc usr now =
     jwtSign svc \<lparr> payloadUser = usr, payloadAccessToken = None \<rparr> (ACCESS_TOKEN_EXPIRATION svc) now"

definition generateRefreshToken :: "AuthenticationService \<Rightarrow> UserModel \<Rightarrow> string \<Rightarrow> int \<Rightarrow> string" where
  "generateRefreshToken svc usr accessTok now =
     jwtSign svc \<lparr> payloadUser = usr, payloadAccessToken = Some accessTok \<rparr>
       (REFRESH_TOKEN_EXPIRATION svc) now"

text \<open>
  \<open>generateAuthenticationCredentialsModel\<close> encrypts the access token, the refresh token
  and the session id, in this order; \<open>ivs\<close> are the three nonces drawn.
\<close>

definition generateAuthenticationCredentialsModel ::
  "AuthenticationService \<Rightarrow> bytes \<times> bytes \<times> bytes \<Rightarrow> UserModel \<Rightarrow> string \<Rightarrow> string \<Rightarrow> string
     \<Rightarrow> AuthenticationCredentialsModel" where
  "generateAuthenticationCredentialsModel svc ivs userModel accessTok refreshTok sessionId =
     (case ivs of (iv1, iv2, iv3) \<Rightarrow>
        \<lparr> credUser = userModel,
          credAccessToken = encryptString (cryptoService svc) iv1 accessTok,
          credRefreshToken = encryptString (cryptoService svc) iv2 refreshTok,
          credSessionId = encryptString (cryptoService svc) iv3 sessionId \<rparr>)"

definition verifyAccessToken :: "AuthenticationService \<Rightarrow> string \<Rightarrow> int \<Rightarrow> exn + JwtPayload" where
  "verifyAccessToken svc accessTok now =
     (case jwtVerifyAsync svc accessTok now of
        Inl e \<Rightarrow> Inl (JwtException e)
      | Inr payload \<Rightarrow> Inr payload)"

text \<open>
  \<open>verifyRefreshToken\<close>. The comparison of the embedded access token and its \<open>throw\<close>
  stand inside the \<open>try\<close> block, so the \<open>catch\<close> clause receives that exception as well
  as those of \<open>verifyAsync\<close>.
\<close>

definition verifyRefreshToken ::
  "AuthenticationService \<Rightarrow> string \<Rightarrow> string \<Rightarrow> int \<Rightarrow> exn + JwtPayload" where
  "verifyRefreshToken svc refreshTok accessTok now =
     (let tryBlock =
        (case jwtVerifyAsync svc refreshTok now of
           Inl e \<Rightarrow> Inl (JwtException e)
         | Inr decodedRefreshToken \<Rightarrow>
             if payloadAccessToken decodedRefreshToken \<noteq> Some accessTok
             then Inl (HttpException ''INVALID_REFRESH_TOKEN'' UNAUTHORIZED)
             else Inr decodedRefreshToken)
      in case tryBlock of
           Inl error \<Rightarrow> Inl (HttpException ''EXPIRED_REFRESH_TOKEN'' UNAUTHORIZED)
         | Inr decodedRefreshToken \<Rightarrow> Inr decodedRefreshToken)"

text \<open>
  \<open>signIn\<close>, run from its first statement to its last without another request in
  between. The clock is read once (\<open>now\<close>); \<open>newId\<close> is the id the store gives the
  new document. The result is the session collection after the call and the value
  returned or the exception thrown.
\<close>

definition signIn ::
  "AuthenticationService \<Rightarrow> UserCollection \<Rightarrow> SessionCollection \<Rightarrow> string \<Rightarrow> int
     \<Rightarrow> bytes \<times> bytes \<times> bytes \<Rightarrow> SignInModel
     \<Rightarrow> SessionCollection \<times> (exn + AuthenticationCredentialsModel)" where
  "signIn svc users sessions newId now ivs signInModel =
     (case getUserByCredentials users (identifier' signInModel) of
        Inl e \<Rightarrow> (sessions, Inl e)
      | Inr None \<Rightarrow> (sessions, Inl (HttpException ''INVALID_CREDENTIALS'' UNAUTHORIZED))
      | Inr (Some userCredentialsModel) \<Rightarrow>
          if \<not> bcryptCompare svc (password signInModel) (authPassword userCredentialsModel)
          then (sessions, Inl (HttpException ''INVALID_CREDENTIALS'' UNAUTHORIZED))
          else
            (case getUserById users (authId userCredentialsModel) of
               Inl e \<Rightarrow> (sessions, Inl e)
             | Inr userModel \<Rightarrow>
                 let accessTok = generateAccessToken svc userModel now;
                     refreshTok = generateRefreshToken svc userModel accessTok now;
                     sessions1 = invalidateOtherSessions sessions (id' userModel) (clientPlatform signInModel);
                     createSessionModel =
                       requestToSessionModel (id' userModel) (clientIpAddress signInModel)
                         (clientUserAgent signInModel) (clientPlatform signInModel)
                         accessTok refreshTok (sessionCookieMaxAge svc) now;
                     (sessions2, sessionId) = createSession sessions1 createSessionModel newId now
                 in (sessions2,
                     Inr (generateAuthenticationCredentialsModel svc ivs userModel accessTok refreshTok
                            sessionId))))"

text \<open>
  \<open>refresh\<close> up to its last suspension point: everything from the argument checks to the
  generation of the new pair. It reads the collection once (\<open>getSessionById\<close>) and
  writes nothing.
\<close>

record PendingRotation =
  loadedSession :: SessionModel
  decodedUser :: UserModel
  newAccessToken :: string
  newRefreshToken :: string

definition refreshPrepare ::
  "AuthenticationService \<Rightarrow> SessionCollection \<Rightarrow> int \<Rightarrow> RefreshSessionModel \<Rightarrow> exn + PendingRotation" where
  "refreshPrepare svc sessions now refreshSessionModel =
     (if encryptedSessionId refreshSessionModel = [] then Inl (HttpException ''INVALID_SESSION_ID'' UNAUTHORIZED)
      else if encryptedAccessToken refreshSessionModel = [] then Inl (HttpException ''INVALID_ACCESS_TOKEN'' UNAUTHORIZED)
      else if encryptedRefreshToken refreshSessionModel = [] then Inl (HttpException ''INVALID_REFRESH_TOKEN'' UNAUTHORIZED)
      else case decryptString (cryptoService svc) (encryptedSessionId refreshSessionModel) of
        None \<Rightarrow> Inl CryptoError
      | Some sessionId \<Rightarrow>
        (case getSessionById sessions sessionId of
           None \<Rightarrow> Inl (HttpException ''SESSION_NOT_FOUND'' UNAUTHORIZED)
         | Some session \<Rightarrow>
           if endsAt session < now then Inl (HttpException ''SESSION_EXPIRED'' UNAUTHORIZED)
           else case decryptString (cryptoService svc) (encryptedAccessToken refreshSessionModel) of
             None \<Rightarrow> Inl CryptoError
           | Some accessTok \<Rightarrow>
             (case decryptString (cryptoService svc) (encryptedRefreshToken refreshSessionModel) of
                None \<Rightarrow> Inl CryptoError
              | Some refreshTok \<Rightarrow>
                if accessToken session \<noteq> accessTok then Inl (HttpException ''INVALID_ACCESS_TOKEN'' UNAUTHORIZED)
                else if refreshToken session \<noteq> refreshTok then Inl (HttpException ''INVALID_REFRESH_TOKEN'' UNAUTHORIZED)
                else case verifyRefreshToken svc refreshTok accessTok now of
                  Inl e \<Rightarrow> Inl e
                | Inr decodedRefreshToken \<Rightarrow>
                    let newAccessTok = generateAccessToken svc (payloadUser decodedRefreshToken) now;
                        newRefreshTok = generateRefreshToken svc (payloadUser decodedRefreshToken) newAccessTok now
                    in Inr \<lparr> loadedSession = session, decodedUser = payloadUser decodedRefreshToken,
                             newAccessToken = newAccessTok, newRefreshToken = newRefreshTok \<rparr>)))"

text \<open>The rest of \<open>refresh\<close>: the update of the stored pair by session id, and the result.\<close>

definition refreshCommit ::
  "AuthenticationService \<Rightarrow> SessionCollection \<Rightarrow> int \<Rightarrow> bytes \<times> bytes \<times> bytes \<Rightarrow> PendingRotation
     \<Rightarrow> SessionCollection \<times> AuthenticationCredentialsModel" where
  "refreshCommit svc sessions now ivs pending =
     (updateSessionTokens sessions (id' (loadedSession pending))
        (newAccessToken pending, newRefreshToken pending) now,
      generateAuthenticationCredentialsModel svc ivs (decodedUser pending)
        (newAccessToken pending) (newRefreshToken pending) (id' (loadedSession pending)))"

definition refresh ::
  "AuthenticationService \<Rightarrow> SessionCollection \<Rightarrow> int \<Rightarrow> bytes \<times> bytes \<times> bytes \<Rightarrow> RefreshSessionModel
     \<Rightarrow> SessionCollection \<times> (exn + AuthenticationCredentialsModel)" where
  "refresh svc sessions now ivs refreshSessionModel =
     (case refreshPrepare svc sessions now refreshSessionModel of
        Inl e \<Rightarrow> (sessions, Inl e)
      | Inr pending \<Rightarrow>
          (case refreshCommit svc sessions now ivs pending of
             (sessions', credentials) \<Rightarrow> (sessions', Inr credentials)))"


section \<open>AuthenticationGuard (authentication.guard.ts)\<close>

text \<open>A header value is a string or an array of strings; \<open>String.split\<close> on one separator.\<close>

datatype HeaderValue = Single string | Multiple "string list"

record Request =
  authorization :: "HeaderValue option"
  sessionIdCookie :: "string option"

fun split :: "char \<Rightarrow> string \<Rightarrow> string list" where
  "split sep [] = [[]]"
| "split sep (c # cs) =
     (if c = sep then [] # split sep cs
      else case split sep cs of
        [] \<Rightarrow> [[c]]
      | w # ws \<Rightarrow> (c # w) # ws)"

text \<open>
  \<open>getAccessToken\<close>. An absent header and the empty string are falsy, an array is not;
  the first element of an empty array and the second part of a value without a space
  are \<open>undefined\<close>, and using them throws a \<open>TypeError\<close>.
\<close>

definition getAccessToken :: "CryptoService \<Rightarrow> HeaderValue option \<Rightarrow> exn + string" where
  "getAccessToken cs authorizationHeader =
     (case authorizationHeader of
        None \<Rightarrow> Inl (HttpException ''NO_ACCESS_TOKEN'' UNAUTHORIZED)
      | Some (Single []) \<Rightarrow> Inl (HttpException ''NO_ACCESS_TOKEN'' UNAUTHORIZED)
      | Some h \<Rightarrow>
          (case (case h of Single s \<Rightarrow> Some s | Multiple [] \<Rightarrow> None | Multiple (s # _) \<Rightarrow> Some s) of
             None \<Rightarrow> Inl TypeError
           | Some raw \<Rightarrow>
               (case split CHR '' '' raw of
                  [] \<Rightarrow> Inl TypeError
                | type # rest \<Rightarrow>
                    if type \<noteq> ''Bearer'' then Inl (HttpException ''INVALID_ACCESS_TOKEN'' UNAUTHORIZED)
                    else case rest of
                      [] \<Rightarrow> Inl TypeError
                    | token # _ \<Rightarrow>
                        (case decryptString cs token of
                           None \<Rightarrow> Inl CryptoError
                         | Some accessTok \<Rightarrow> Inr accessTok))))"

definition getSessionId :: "CryptoService \<Rightarrow> string option \<Rightarrow> exn + string" where
  "getSessionId cs cookie =
     (case cookie of
        None \<Rightarrow> Inl (HttpException ''INVALID_SESSION_ID'' UNAUTHORIZED)
      | Some sessionId \<Rightarrow>
          if sessionId = [] then Inl (HttpException ''INVALID_SESSION_ID'' UNAUTHORIZED)
          else case decryptString cs sessionId of
            None \<Rightarrow> Inl CryptoError
          | Some sid \<Rightarrow> Inr sid)"

text \<open>
  \<open>canActivate\<close> returns \<open>true\<close> after attaching the token's user to the request; the
  model returns that user. A session that is not found is \<open>null\<close>, and reading its
  \<open>endsAt\<close> throws a \<open>TypeError\<close>.
\<close>

definition canActivate ::
  "AuthenticationService \<Rightarrow> SessionCollection \<Rightarrow> int \<Rightarrow> Request \<Rightarrow> exn + UserModel" where
  "canActivate svc sessions now request =
     (case getAccessToken (cryptoService svc) (authorization request) of
        Inl e \<Rightarrow> Inl e
      | Inr accessTok \<Rightarrow>
        (case getSessionId (cryptoService svc) (sessionIdCookie request) of
           Inl e \<Rightarrow> Inl e
         | Inr sessionId \<Rightarrow>
           (case getSessionById sessions sessionId of
              None \<Rightarrow> Inl TypeError
            | Some session \<Rightarrow>
                if endsAt session < now then Inl (HttpException ''SESSION_EXPIRED'' UNAUTHORIZED)
                else if accessToken session \<noteq> accessTok then Inl (HttpException ''INVALID_ACCESS_TOKEN'' UNAUTHORIZED)
                else case verifyAccessToken svc accessTok now of
                  Inl e \<Rightarrow> Inl (HttpException ''EXPIRED_ACCESS_TOKEN'' UNAUTHORIZED)
                | Inr payload \<Rightarrow> Inr (payloadUser payload))))"

section \<open>Concurrent refresh calls\<close>

text \<open>
  Requests run on one thread and give way to each other at every \<open>await\<close>. A
  \<open>refresh\<close> call touches the collection at two of them: the read in \<open>getSessionById\<close>
  and, after the pure checks and the signing, the write in \<open>updateSessionTokens\<close>. A
  call is therefore a task with two atomic steps, and a run of several calls is a
  schedule: the list of the task indices in the order in which their steps are taken.
\<close>

record RefreshCall =
  callModel :: RefreshSessionModel
  callNow :: int
  callIvs :: "bytes \<times> bytes \<times> bytes"

datatype RefreshTask =
    Arrived RefreshCall
  | AwaitingUpdate RefreshCall PendingRotation
  | Returned "exn + AuthenticationCredentialsModel"

definition stepTask ::
  "AuthenticationService \<Rightarrow> SessionCollection \<Rightarrow> RefreshTask \<Rightarrow> SessionCollection \<times> RefreshTask" where
  "stepTask svc sessions task =
     (case task of
        Arrived call \<Rightarrow>
          (case refreshPrepare svc sessions (callNow call) (callModel call) of
             Inl e \<Rightarrow> (sessions, Returned (Inl e))
           | Inr pending \<Rightarrow> (sessions, AwaitingUpdate call pending))
      | AwaitingUpdate call pending \<Rightarrow>
          (case refreshCommit svc sessions (callNow call) (callIvs call) pending of
             (sessions', credentials) \<Rightarrow> (sessions', Returned (Inr credentials)))
      | Returned r \<Rightarrow> (sessions, Returned r))"

fun runSchedule ::
  "AuthenticationService \<Rightarrow> nat list \<Rightarrow> SessionCollection \<times> RefreshTask list
     \<Rightarrow> SessionCollection \<times> RefreshTask list" where
  "runSchedule svc [] state = state"
| "runSchedule svc (i # schedule) (sessions, tasks) =
     (if i < length tasks
      then case stepTask svc sessions (tasks ! i) of
             (sessions', task') \<Rightarrow> runSchedule svc schedule (sessions', tasks[i := task'])
      else runSchedule svc schedule (sessions, tasks))"


section \<open>A small deployment for the examples\<close>

text \<open>
  Concrete collaborators on which the operations can be run: a stand-in cipher that
  masks every byte and authenticates key, nonce and ciphertext with a checksum, a byte
  codec for text, a password check and a token service given by a table.
\<close>

definition xorAll :: "bytes \<Rightarrow> byte" where
  "xorAll bs = foldr (\<lambda>a b. a XOR b) bs 0"

definition standInEncrypt :: "bytes \<Rightarrow> bytes \<Rightarrow> bytes \<Rightarrow> bytes \<times> bytes" where
  "standInEncrypt k iv plain =
     (let encrypted = map (\<lambda>b. b XOR 0x5A) plain
      in (encrypted, replicate 15 0 @ [xorAll (k @ iv @ encrypted)]))"

definition standInDecrypt :: "bytes \<Rightarrow> bytes \<Rightarrow> bytes \<Rightarrow> bytes \<Rightarrow> bytes option" where
  "standInDecrypt k iv authTag encrypted =
     (if authTag = replicate 15 0 @ [xorAll (k @ iv @ encrypted)]
      then Some (map (\<lambda>b. b XOR 0x5A) encrypted)
      else None)"

definition exampleCrypto :: CryptoService where
  "exampleCrypto =
     \<lparr> key = replicate 32 7,
       gcmEncrypt = standInEncrypt,
       gcmDecrypt = standInDecrypt,
       utf8Encode = map (\<lambda>c. of_nat (of_char c)),
       utf8Decode = map (\<lambda>b. char_of (unat b)) \<rparr>"

definition alice :: UserEntity where
  "alice =
     \<lparr> id' = ''u1'', createdAt = 0, updatedAt = 0, deletedAt = None,
       username = ''alice'', firstName = ''Alice'', lastName = ''A'', email = ''alice@example.com'',
       userRoles = [], userIncludedPermissions = [], userExcludedPermissions = [],
       userAdministratorAccess = False,
       userPassword = ''hash:secret'' \<rparr>"

definition exampleUsers :: UserCollection where
  "exampleUsers = [\<lparr> entity = alice, isDeleted = False \<rparr>]"

definition exampleSign :: "JwtPayload \<Rightarrow> string \<Rightarrow> int \<Rightarrow> string" where
  "exampleSign payload expiresIn now =
     (case payloadAccessToken payload of
        None \<Rightarrow> ''access''
      | Some a \<Rightarrow> ''refresh('' @ a @ '')'')
     @ replicate (nat now) CHR ''+''"

definition exampleVerify :: "string \<Rightarrow> int \<Rightarrow> JwtError + JwtPayload" where
  "exampleVerify token now =
     (if token = ''A0'' then
        (if now \<le> 10 then Inr \<lparr> payloadUser = toModel alice, payloadAccessToken = None \<rparr>
         else Inl TokenExpiredError)
      else if token = ''R0'' then
        (if now \<le> 50 then Inr \<lparr> payloadUser = toModel alice, payloadAccessToken = Some ''A0'' \<rparr>
         else Inl TokenExpiredError)
      else if token = ''Rx'' then
        Inr \<lparr> payloadUser = toModel alice, payloadAccessToken = Some ''Ax'' \<rparr>
      else Inl JsonWebTokenError)"

definition exampleService :: AuthenticationService where
  "exampleService =
     \<lparr> cryptoService = exampleCrypto,
       bcryptCompare = (\<lambda>plain hash. hash = ''hash:'' @ plain),
       jwtSign = exampleSign,
       jwtVerifyAsync = exampleVerify,
       ACCESS_TOKEN_EXPIRATION = ''15m'',
       REFRESH_TOKEN_EXPIRATION = ''7d'',
       sessionCookieMaxAge = 86400000 \<rparr>"

definition webSession :: SessionModel where
  "webSession =
     \<lparr> id' = ''s1'', createdAt = 1, updatedAt = 1, deletedAt = None,
       user = ''u1'', ipAddress = ''10.0.0.1'', userAgent = ''browser'',
       accessToken = ''A0'', refreshToken = ''R0'',
       startedAt = 1, endsAt = 100, platform = ''web'' \<rparr>"

definition mobileSession :: SessionModel where
  "mobileSession =
     \<lparr> id' = ''s2'', createdAt = 1, updatedAt = 1, deletedAt = None,
       user = ''u1'', ipAddress = ''10.0.0.2'', userAgent = ''app'',
       accessToken = ''Am'', refreshToken = ''Rm'',
       startedAt = 1, endsAt = 100, platform = ''mobile'' \<rparr>"

definition exampleSessions :: SessionCollection where
  "exampleSessions =
     [\<lparr> entity = webSession, isDeleted = False \<rparr>, \<lparr> entity = mobileSession, isDeleted = False \<rparr>]"


definition exampleIvs :: "bytes \<times> bytes \<times> bytes" where
  "exampleIvs = (replicate 12 1, replicate 12 2, replicate 12 3)"

definition sealed :: "string \<Rightarrow> string" where
  "sealed s = encryptString exampleCrypto (replicate 12 9) s"

definition exampleRefresh :: RefreshSessionModel where
  "exampleRefresh =
     \<lparr> encryptedAccessToken = sealed ''A0'',
       encryptedRefreshToken = sealed ''R0'',
       encryptedSessionId = sealed ''s1'' \<rparr>"


definition firstCall :: RefreshCall where
  "firstCall = \<lparr> callModel = exampleRefresh, callNow = 2, callIvs = exampleIvs \<rparr>"

definition secondCall :: RefreshCall where
  "secondCall = \<lparr> callModel = exampleRefresh, callNow = 3, callIvs = exampleIvs \<rparr>"

section \<open>Notions used in the statements\<close>


text \<open>Whether a task has returned a value rather than thrown.\<close>

definition succeeded :: "RefreshTask \<Rightarrow> bool" where
  "succeeded task = (case task of Returned (Inr c) \<Rightarrow> True | _ \<Rightarrow> False)"

text \<open>Everything in a session except its token pair and \<open>updatedAt\<close>.\<close>

definition sessionFrame ::
  "SessionModel \<Rightarrow> string \<times> int \<times> string \<times> string \<times> string \<times> PLATFORMS \<times> int \<times> int \<times> int option" where
  "sessionFrame s = (id' s, endsAt s, user s, ipAddress s, userAgent s, platform s, startedAt s,
                     createdAt s, deletedAt s)"

text \<open>Sign-in requests used in the examples.\<close>

definition unknownIdentifier :: SignInModel where
  "unknownIdentifier =
     \<lparr> identifier' = ''mallory'', password = ''secret'', clientIpAddress = ''10.0.0.9'',
       clientUserAgent = ''browser'', clientPlatform = ''web'' \<rparr>"

definition wrongSecret :: SignInModel where
  "wrongSecret =
     \<lparr> identifier' = ''alice'', password = ''guess'', clientIpAddress = ''10.0.0.9'',
       clientUserAgent = ''browser'', clientPlatform = ''web'' \<rparr>"


text \<open>
  A collection whose stored access token does not verify at all, and requests that carry
  a sealed access token and session id.
\<close>

definition forgedSessions :: SessionCollection where
  "forgedSessions = [\<lparr> entity = webSession\<lparr> accessToken := ''forged'' \<rparr>, isDeleted = False \<rparr>]"

definition bearer :: "string \<Rightarrow> string \<Rightarrow> Request" where
  "bearer accessTok sessionId =
     \<lparr> authorization = Some (Single (''Bearer '' @ sealed accessTok)),
       sessionIdCookie = Some (sealed sessionId) \<rparr>"

section \<open>Properties of the permission resolver\<close>

text \<open>
  C2. Whenever the lookup returns a grant set, \<open>hasPermission\<close> returns true exactly when
  the required list is empty, or the administrator flag is set, or no required permission
  is excluded by the user or by any assigned role and every required permission lies in
  (roles' included minus roles' excluded) union (user included minus user excluded).
\<close>

theorem hasPermission_characterisation:
  assumes "lookup userId = Inr g"
  shows "hasPermission lookup userId required =
     Inr (required = []
        \<or> administratorAccess g
        \<or> ((\<forall>p \<in> set required.
               p \<notin> excludedPermissions g
             \<and> p \<notin> (\<Union>r \<in> set (roles g). set (roleExcludedPermissions r)))
           \<and> (\<forall>p \<in> set required.
               p \<in> ((\<Union>r \<in> set (roles g). set (roleIncludedPermissions r))
                      - (\<Union>r \<in> set (roles g). set (roleExcludedPermissions r)))
                   \<union> (includedPermissions g - excludedPermissions g))))"
  using assms
  by (auto simp: hasPermission_def Let_def list_ex_iff list_all_iff)

theorem hasPermission_characterisation_witness:
  "hasPermission (\<lambda>u. Inr exampleGrants) ''u1'' [''A''] = Inr False
   \<and> hasPermission (\<lambda>u. Inr exampleGrants) ''u1'' [''B''] = Inr True"
  using hasPermission_characterisation [of "\<lambda>u. Inr exampleGrants" "''u1''" exampleGrants "[''A'']"]
        hasPermission_characterisation [of "\<lambda>u. Inr exampleGrants" "''u1''" exampleGrants "[''B'']"]
  by (simp add: exampleGrants_def)

section \<open>Properties of the transport crypto\<close>

subsection \<open>Base64 decoding inverts encoding\<close>

lemma byte_bound: "unat (a :: byte) < 256"
  using unsigned_less [of a] by simp

lemma split_low:
  fixes m q :: nat
  shows "q < 16 \<Longrightarrow> (m * 16 + q) div 16 = m" and "q < 16 \<Longrightarrow> (m * 16 + q) mod 16 = q"
    and "q < 4 \<Longrightarrow> (m * 4 + q) div 4 = m" and "q < 4 \<Longrightarrow> (m * 4 + q) mod 4 = q"
  by simp_all

lemma regroup_nat:
  fixes x y z :: nat
  assumes "x < 256" "y < 256" "z < 256"
  shows "x div 4 * 4 + (x mod 4 * 16 + y div 16) div 16 = x"
    and "((x mod 4 * 16 + y div 16) mod 16) * 16 + (y mod 16 * 4 + z div 64) div 4 = y"
    and "((y mod 16 * 4 + z div 64) mod 4) * 64 + z mod 64 = z"
    and "x div 4 * 4 + (x mod 4 * 16) div 16 = x"
    and "((x mod 4 * 16 + y div 16) mod 16) * 16 + (y mod 16 * 4) div 4 = y"
proof -
  have y16: "y div 16 < 16" and z64: "z div 64 < 4" using assms by auto
  show "x div 4 * 4 + (x mod 4 * 16 + y div 16) div 16 = x"
    using split_low(1) [OF y16, of "x mod 4"] by simp
  show "((x mod 4 * 16 + y div 16) mod 16) * 16 + (y mod 16 * 4 + z div 64) div 4 = y"
    using split_low(2) [OF y16, of "x mod 4"] split_low(3) [OF z64, of "y mod 16"] by simp
  show "((y mod 16 * 4 + z div 64) mod 4) * 64 + z mod 64 = z"
    using split_low(4) [OF z64, of "y mod 16"] by simp
  show "x div 4 * 4 + (x mod 4 * 16) div 16 = x" by simp
  show "((x mod 4 * 16 + y div 16) mod 16) * 16 + (y mod 16 * 4) div 4 = y"
    using split_low(2) [OF y16, of "x mod 4"] by simp
qed

lemma b64char_table:
  "list_all (\<lambda>n. unbase64 (b64char n) = Some n \<and> b64char n \<noteq> CHR ''='') [0..<64]"
  by code_simp

lemma b64char_sound:
  assumes "n < 64"
  shows "unbase64 (b64char n) = Some n" and "b64char n \<noteq> CHR ''=''"
  using assms b64char_table by (auto simp: list_all_iff)

lemma sextet_bounds:
  fixes a b c :: byte
  shows "unat a div 4 < 64"
    and "(unat a mod 4) * 16 + unat b div 16 < 64"
    and "(unat b mod 16) * 4 + unat c div 64 < 64"
    and "unat c mod 64 < 64"
    and "(unat b mod 16) * 4 < 64"
    and "(unat a mod 4) * 16 < 64"
  using byte_bound [of a] byte_bound [of b] byte_bound [of c] by auto

lemma regroup:
  fixes a b c :: byte
  shows "(of_nat (unat a div 4 * 4 + (unat a mod 4 * 16 + unat b div 16) div 16) :: byte) = a"
    and "(of_nat (((unat a mod 4 * 16 + unat b div 16) mod 16) * 16
             + (unat b mod 16 * 4 + unat c div 64) div 4) :: byte) = b"
    and "(of_nat (((unat b mod 16 * 4 + unat c div 64) mod 4) * 64 + unat c mod 64) :: byte) = c"
    and "(of_nat (unat a div 4 * 4 + (unat a mod 4 * 16) div 16) :: byte) = a"
    and "(of_nat (((unat a mod 4 * 16 + unat b div 16) mod 16) * 16 + (unat b mod 16 * 4) div 4) :: byte) = b"
  using regroup_nat [OF byte_bound [of a] byte_bound [of b] byte_bound [of c]]
  by simp_all

lemma decodeSextets_regroup:
  fixes a b c :: byte
  shows "decodeSextets (unat a div 4 # (unat a mod 4 * 16 + unat b div 16)
            # (unat b mod 16 * 4 + unat c div 64) # unat c mod 64 # rest)
         = a # b # c # decodeSextets rest"
    and "decodeSextets [unat a div 4, unat a mod 4 * 16 + unat b div 16, unat b mod 16 * 4] = [a, b]"
    and "decodeSextets [unat a div 4, unat a mod 4 * 16] = [a]"
  by (simp_all only: decodeSextets.simps regroup)

lemma sextets_of_group:
  assumes "n1 < 64" "n2 < 64" "n3 < 64" "n4 < 64"
  shows "List.map_filter unbase64 (takeWhile (\<lambda>c. c \<noteq> CHR ''='')
            (b64char n1 # b64char n2 # b64char n3 # b64char n4 # cs))
       = n1 # n2 # n3 # n4 # List.map_filter unbase64 (takeWhile (\<lambda>c. c \<noteq> CHR ''='') cs)"
  using assms by (simp add: b64char_sound List.map_filter_simps)

lemma sextets_of_last3:
  assumes "n1 < 64" "n2 < 64" "n3 < 64"
  shows "List.map_filter unbase64 (takeWhile (\<lambda>c. c \<noteq> CHR ''='')
            [b64char n1, b64char n2, b64char n3, CHR ''=''])
       = [n1, n2, n3]"
  using assms by (simp add: b64char_sound List.map_filter_simps)

lemma sextets_of_last2:
  assumes "n1 < 64" "n2 < 64"
  shows "List.map_filter unbase64 (takeWhile (\<lambda>c. c \<noteq> CHR ''='')
            [b64char n1, b64char n2, CHR ''='', CHR ''=''])
       = [n1, n2]"
  using assms by (simp add: b64char_sound List.map_filter_simps)

lemma base64_roundtrip: "base64Decode (base64Encode bs) = bs"
proof (induction bs rule: base64Encode.induct)
  case (1 a b c rest)
  have "base64Decode (base64Encode (a # b # c # rest))
      = decodeSextets (unat a div 4 # (unat a mod 4 * 16 + unat b div 16)
            # (unat b mod 16 * 4 + unat c div 64) # unat c mod 64
            # List.map_filter unbase64 (takeWhile (\<lambda>c. c \<noteq> CHR ''='') (base64Encode rest)))"
    unfolding base64Decode_def base64Encode.simps
    by (simp only: sextets_of_group sextet_bounds)
  also have "\<dots> = a # b # c # base64Decode (base64Encode rest)"
    unfolding base64Decode_def by (rule decodeSextets_regroup)
  finally show ?case using "1.IH" by simp
next
  case (2 a b)
  show ?case
    unfolding base64Decode_def base64Encode.simps
    by (simp only: sextets_of_last3 sextets_of_last2 sextet_bounds decodeSextets_regroup)
next
  case (3 a)
  show ?case
    unfolding base64Decode_def base64Encode.simps
    by (simp only: sextets_of_last3 sextets_of_last2 sextet_bounds decodeSextets_regroup)
next
  case 4
  show ?case by (simp add: base64Decode_def List.map_filter_simps)
qed

subsection \<open>CryptoService\<close>

lemma decryptString_encryptString:
  assumes "length iv = 12"
    and "gcmEncrypt cs (key cs) iv (utf8Encode cs s) = (encrypted, authTag)"
    and "length authTag = 16"
    and "gcmDecrypt cs (key cs) iv authTag encrypted = Some (utf8Encode cs s)"
    and "utf8Decode cs (utf8Encode cs s) = s"
  shows "decryptString cs (encryptString cs iv s) = Some s"
  using assms by (simp add: decryptString_def encryptString_def base64_roundtrip)

lemma xor_mask_twice: "map (\<lambda>b. b XOR (0x5A :: byte)) (map (\<lambda>b. b XOR 0x5A) bs) = bs"
  by (induction bs) (simp_all add: xor.assoc)

lemma byte_codec: "map (\<lambda>b :: byte. char_of (unat b)) (map (\<lambda>c. of_nat (of_char c)) s) = s"
proof (induction s)
  case Nil
  show ?case by simp
next
  case (Cons c s)
  have "(of_char c :: nat) < 256" by simp
  then have "unat (of_nat (of_char c) :: byte) = of_char c"
    by (simp add: unat_of_nat)
  with Cons show ?case by simp
qed

lemma sealed_opens: "decryptString exampleCrypto (sealed s) = Some s"
  unfolding sealed_def
  by (rule decryptString_encryptString
        [where encrypted = "map (\<lambda>b. b XOR 0x5A) (map (\<lambda>c. of_nat (of_char c)) s)"
           and authTag = "replicate 15 0 @ [xorAll (replicate 32 7 @ replicate 12 9
                            @ map (\<lambda>b. b XOR 0x5A) (map (\<lambda>c. of_nat (of_char c)) s))]"])
     (simp_all add: exampleCrypto_def standInEncrypt_def standInDecrypt_def Let_def
        xor_mask_twice byte_codec del: map_map)

subsection \<open>Bits of a token that the decoder drops\<close>

lemma length_base64Encode: "bs \<noteq> [] \<Longrightarrow> 4 \<le> length (base64Encode bs)"
  by (induction bs rule: base64Encode.induct) simp_all

lemma last_chars:
  "b64char 0 = CHR ''A''" "b64char 16 = CHR ''Q''" "b64char 32 = CHR ''g''" "b64char 48 = CHR ''w''"
  by (simp_all add: b64char_def b64alphabet_def)

lemma flipped_chars:
  "char_of ((of_char CHR ''A'' :: nat) XOR 2 ^ 1) = CHR ''C''"
  "char_of ((of_char CHR ''Q'' :: nat) XOR 2 ^ 1) = CHR ''S''"
  "char_of ((of_char CHR ''g'' :: nat) XOR 2 ^ 3) = CHR ''o''"
  "char_of ((of_char CHR ''w'' :: nat) XOR 2 ^ 6) = CHR ''7''"
  by code_simp+

lemma flipped_sextets:
  "unbase64 CHR ''C'' = Some 2" "unbase64 CHR ''S'' = Some 18"
  "unbase64 CHR ''o'' = Some 40" "unbase64 CHR ''7'' = Some 59"
  by code_simp+

lemma last_char_flip:
  assumes "n < 4"
  obtains k m where "k < 8"
    and "char_of ((of_char (b64char (n * 16)) :: nat) XOR 2 ^ k) \<noteq> b64char (n * 16)"
    and "char_of ((of_char (b64char (n * 16)) :: nat) XOR 2 ^ k) \<noteq> CHR ''=''"
    and "unbase64 (char_of ((of_char (b64char (n * 16)) :: nat) XOR 2 ^ k)) = Some m"
    and "m div 16 = n"
proof -
  from assms consider "n = 0" | "n = 1" | "n = 2" | "n = 3" by linarith
  then show thesis
  proof cases
    case 1
    show thesis
      by (rule that [of 1 2]) (simp_all only: 1 mult_0 last_chars flipped_chars flipped_sextets, simp_all)
  next
    case 2
    show thesis
      by (rule that [of 1 18]) (simp_all only: 2 mult_1 last_chars flipped_chars flipped_sextets, simp_all)
  next
    case 3
    have "n * 16 = 32" using 3 by simp
    then show thesis
      by (intro that [of 3 40]) (simp_all only: last_chars flipped_chars flipped_sextets, simp_all add: 3)
  next
    case 4
    have "n * 16 = 48" using 4 by simp
    then show thesis
      by (intro that [of 6 59]) (simp_all only: last_chars flipped_chars flipped_sextets, simp_all add: 4)
  qed
qed

lemma flip_last_group:
  fixes a :: byte
  shows "\<exists>k<8. flipBit 1 k (base64Encode [a]) \<noteq> base64Encode [a]
              \<and> base64Decode (flipBit 1 k (base64Encode [a])) = [a]"
proof -
  have "unat a mod 4 < 4" by simp
  then obtain k m where k: "k < 8"
    and differs: "char_of ((of_char (b64char (unat a mod 4 * 16)) :: nat) XOR 2 ^ k)
                    \<noteq> b64char (unat a mod 4 * 16)"
    and nopad: "char_of ((of_char (b64char (unat a mod 4 * 16)) :: nat) XOR 2 ^ k) \<noteq> CHR ''=''"
    and sextet: "unbase64 (char_of ((of_char (b64char (unat a mod 4 * 16)) :: nat) XOR 2 ^ k)) = Some m"
    and top: "m div 16 = unat a mod 4"
    by (rule last_char_flip)
  let ?c' = "char_of ((of_char (b64char (unat a mod 4 * 16)) :: nat) XOR 2 ^ k)"
  let ?t = "[b64char (unat a div 4), b64char (unat a mod 4 * 16), CHR ''='', CHR ''='']"
  let ?t' = "[b64char (unat a div 4), ?c', CHR ''='', CHR ''='']"
  have token: "base64Encode [a] = ?t"
    by simp
  have flipped: "flipBit 1 k ?t = ?t'"
    by (simp add: flipBit_def)
  have "base64Decode ?t' = decodeSextets [unat a div 4, m]"
    using nopad sextet
    by (simp add: base64Decode_def b64char_sound sextet_bounds List.map_filter_simps)
  also have "\<dots> = [of_nat (unat a div 4 * 4 + unat a mod 4)]"
    by (simp add: top)
  also have "\<dots> = [a]"
    by simp
  finally have same: "base64Decode ?t' = [a]" .
  have "?t' \<noteq> ?t"
    using differs by simp
  with same have "flipBit 1 k ?t \<noteq> ?t \<and> base64Decode (flipBit 1 k ?t) = [a]"
    by (simp only: flipped) simp
  with k show ?thesis
    unfolding token by blast
qed

lemma flipBit_past_group:
  "flipBit (4 + i) k (c1 # c2 # c3 # c4 # cs) = c1 # c2 # c3 # c4 # flipBit i k cs"
  by (simp add: flipBit_def)

lemma base64Decode_group:
  fixes a b c :: byte
  shows "base64Decode (b64char (unat a div 4)
           # b64char ((unat a mod 4) * 16 + unat b div 16)
           # b64char ((unat b mod 16) * 4 + unat c div 64)
           # b64char (unat c mod 64) # cs)
       = a # b # c # base64Decode cs"
  unfolding base64Decode_def
  by (simp only: sextets_of_group sextet_bounds decodeSextets_regroup)

lemma flip_trailing_bits:
  assumes "length raw mod 3 = 1"
  shows "\<exists>k<8. flipBit (length (base64Encode raw) - 3) k (base64Encode raw) \<noteq> base64Encode raw
              \<and> base64Decode (flipBit (length (base64Encode raw) - 3) k (base64Encode raw)) = raw"
  using assms
proof (induction raw rule: base64Encode.induct)
  case (1 a b c rest)
  then have rest: "length rest mod 3 = 1" by simp
  from "1.IH" [OF rest] obtain k where k: "k < 8"
    and differs: "flipBit (length (base64Encode rest) - 3) k (base64Encode rest) \<noteq> base64Encode rest"
    and same: "base64Decode (flipBit (length (base64Encode rest) - 3) k (base64Encode rest)) = rest"
    by blast
  from rest have "rest \<noteq> []" by (intro notI) simp
  then have "4 \<le> length (base64Encode rest)"
    by (rule length_base64Encode)
  then have position: "length (base64Encode (a # b # c # rest)) - 3
                     = 4 + (length (base64Encode rest) - 3)"
    by simp
  have "flipBit (length (base64Encode (a # b # c # rest)) - 3) k (base64Encode (a # b # c # rest))
        = b64char (unat a div 4)
           # b64char ((unat a mod 4) * 16 + unat b div 16)
           # b64char ((unat b mod 16) * 4 + unat c div 64)
           # b64char (unat c mod 64)
           # flipBit (length (base64Encode rest) - 3) k (base64Encode rest)"
    unfolding position by (simp only: base64Encode.simps flipBit_past_group)
  with differs same k show ?case
    by (auto simp only: base64Decode_group base64Encode.simps list.inject)
next
  case (2 a b)
  then show ?case by simp
next
  case (3 a)
  show ?case using flip_last_group [of a] by simp
next
  case 4
  then show ?case by simp
qed

lemma undetected_flip_exists:
  assumes "gcmEncrypt cs (key cs) iv (utf8Encode cs s) = (encrypted, authTag)"
    and "(length iv + length authTag + length encrypted) mod 3 = 1"
  shows "\<exists>i k. i < length (encryptString cs iv s) \<and> k < 8
             \<and> flipBit i k (encryptString cs iv s) \<noteq> encryptString cs iv s
             \<and> decryptString cs (flipBit i k (encryptString cs iv s))
                 = decryptString cs (encryptString cs iv s)"
proof -
  let ?raw = "iv @ authTag @ encrypted"
  have token: "encryptString cs iv s = base64Encode ?raw"
    using assms(1) by (simp add: encryptString_def)
  have len: "length ?raw mod 3 = 1"
    using assms(2) by (simp add: add.assoc)
  from flip_trailing_bits [OF len] obtain k where k: "k < 8"
    and differs: "flipBit (length (base64Encode ?raw) - 3) k (base64Encode ?raw) \<noteq> base64Encode ?raw"
    and same: "base64Decode (flipBit (length (base64Encode ?raw) - 3) k (base64Encode ?raw)) = ?raw"
    by blast
  from len have "?raw \<noteq> []" by (intro notI) simp
  then have "4 \<le> length (base64Encode ?raw)"
    by (rule length_base64Encode)
  then have inside: "length (base64Encode ?raw) - 3 < length (base64Encode ?raw)"
    by simp
  have "decryptString cs (flipBit (length (base64Encode ?raw) - 3) k (base64Encode ?raw))
      = decryptString cs (base64Encode ?raw)"
    by (simp only: decryptString_def same base64_roundtrip)
  with k differs inside show ?thesis
    unfolding token by blast
qed

text \<open>
  C3. For a 12-byte nonce, a cipher that returns a 16-byte tag and decrypts what it
  encrypted, and a string that the UTF-8 codec maps back to itself,
  \<open>decryptString\<close> returns the string that \<open>encryptString\<close> was given. A single
  flipped bit is not always rejected: when the ciphertext length is a multiple of three,
  the token ends in padding, and some bit of its last character before the padding can
  be flipped without changing the bytes the decoder hands to the cipher, so
  \<open>decryptString\<close> returns the same string.
\<close>

theorem encrypt_decrypt_roundtrip:
  assumes "length iv = 12"
    and "gcmEncrypt cs (key cs) iv (utf8Encode cs s) = (encrypted, authTag)"
    and "length authTag = 16"
    and "gcmDecrypt cs (key cs) iv authTag encrypted = Some (utf8Encode cs s)"
    and "utf8Decode cs (utf8Encode cs s) = s"
  shows "decryptString cs (encryptString cs iv s) = Some s
       \<and> (length encrypted mod 3 = 0 \<longrightarrow>
            (\<exists>i k. i < length (encryptString cs iv s) \<and> k < 8
                 \<and> flipBit i k (encryptString cs iv s) \<noteq> encryptString cs iv s
                 \<and> decryptString cs (flipBit i k (encryptString cs iv s)) = Some s))"
proof (intro conjI impI)
  show roundtrip: "decryptString cs (encryptString cs iv s) = Some s"
    using assms by (rule decryptString_encryptString)
  assume "length encrypted mod 3 = 0"
  then have "(length iv + length authTag + length encrypted) mod 3 = 1"
    using assms(1,3) by presburger
  from undetected_flip_exists [OF assms(2) this] roundtrip
  show "\<exists>i k. i < length (encryptString cs iv s) \<and> k < 8
             \<and> flipBit i k (encryptString cs iv s) \<noteq> encryptString cs iv s
             \<and> decryptString cs (flipBit i k (encryptString cs iv s)) = Some s"
    by simp
qed

theorem encrypt_decrypt_roundtrip_witness:
  "length (replicate 12 (9 :: byte)) = 12
   \<and> length (snd (gcmEncrypt exampleCrypto (key exampleCrypto) (replicate 12 9)
                    (utf8Encode exampleCrypto ''session-1''))) = 16
   \<and> length (fst (gcmEncrypt exampleCrypto (key exampleCrypto) (replicate 12 9)
                    (utf8Encode exampleCrypto ''session-1''))) mod 3 = 0
   \<and> utf8Decode exampleCrypto (utf8Encode exampleCrypto ''session-1'') = ''session-1''
   \<and> decryptString exampleCrypto (encryptString exampleCrypto (replicate 12 9) ''session-1'')
       = Some ''session-1''
   \<and> (\<exists>i k. i < length (encryptString exampleCrypto (replicate 12 9) ''session-1'') \<and> k < 8
          \<and> flipBit i k (encryptString exampleCrypto (replicate 12 9) ''session-1'')
              \<noteq> encryptString exampleCrypto (replicate 12 9) ''session-1''
          \<and> decryptString exampleCrypto
               (flipBit i k (encryptString exampleCrypto (replicate 12 9) ''session-1''))
              = Some ''session-1'')"
proof -
  let ?iv = "replicate 12 (9 :: byte)"
  let ?plain = "utf8Encode exampleCrypto ''session-1''"
  let ?out = "gcmEncrypt exampleCrypto (key exampleCrypto) ?iv ?plain"
  have h1: "length ?iv = 12" by simp
  have h2: "?out = (fst ?out, snd ?out)" by simp
  have h3: "length (snd ?out) = 16"
    by (simp add: exampleCrypto_def standInEncrypt_def Let_def)
  have h4: "gcmDecrypt exampleCrypto (key exampleCrypto) ?iv (snd ?out) (fst ?out) = Some ?plain"
    by (simp add: exampleCrypto_def standInEncrypt_def standInDecrypt_def Let_def xor.assoc)
  have h5: "utf8Decode exampleCrypto ?plain = ''session-1''"
    by code_simp
  have h6: "length (fst ?out) mod 3 = 0"
    by (simp add: exampleCrypto_def standInEncrypt_def Let_def)
  from encrypt_decrypt_roundtrip [OF h1 h2 h3 h4 h5] h1 h3 h5 h6 show ?thesis by blast
qed

text \<open>
  The token of \<open>session-1\<close> under the stand-in cipher has 52 characters and ends in
  \<open>w==\<close>. Flipping bit 6 of the \<open>w\<close> at position 49 gives \<open>7\<close>, whose upper two bits
  are the same; the flipped token is a different string and decrypts to \<open>session-1\<close>.
\<close>

theorem single_bit_flip_counterexample:
  "flipBit 49 6 (encryptString exampleCrypto (replicate 12 9) ''session-1'')
     \<noteq> encryptString exampleCrypto (replicate 12 9) ''session-1''
   \<and> decryptString exampleCrypto
        (flipBit 49 6 (encryptString exampleCrypto (replicate 12 9) ''session-1''))
     = Some ''session-1''"
  by code_simp

section \<open>Properties of the session collection\<close>

lemma find_updateFirst:
  assumes "find P xs = Some x" and "P (f x)"
  shows "find P (updateFirst P f xs) = Some (f x)"
  using assms by (induction xs) (auto split: if_splits)

lemma find_updateFirst_None:
  assumes "find P xs = None"
  shows "updateFirst P f xs = xs"
  using assms by (induction xs) (auto split: if_splits)

lemma map_updateFirst:
  assumes "\<And>x. g (f x) = g x"
  shows "map g (updateFirst P f xs) = map g xs"
  using assms by (induction xs) auto

lemma filter_updateFirst:
  assumes "\<And>x. P x \<Longrightarrow> \<not> Q x" and "\<And>x. P x \<Longrightarrow> \<not> Q (f x)"
  shows "filter Q (updateFirst P f xs) = filter Q xs"
  using assms by (induction xs) auto

lemma getSessionById_updateSessionTokens:
  assumes "getSessionById sessions sid = Some s"
  shows "getSessionById (updateSessionTokens sessions sid tokens now) sid
       = Some (s\<lparr> accessToken := fst tokens, refreshToken := snd tokens, updatedAt := now \<rparr>)"
proof -
  let ?P = "\<lambda>d. \<not> isDeleted d \<and> id' (entity d) = sid"
  let ?f = "\<lambda>d. d\<lparr> entity := (entity d)\<lparr> accessToken := fst tokens, refreshToken := snd tokens,
                                     updatedAt := now \<rparr> \<rparr>"
  from assms obtain d where d: "find ?P sessions = Some d" and s: "s = entity d"
    by (auto simp: getSessionById_def)
  from d have "?P d" by (auto simp: find_Some_iff)
  then have "?P (?f d)" by simp
  with d have "find ?P (updateFirst ?P ?f sessions) = Some (?f d)"
    by (rule find_updateFirst [of ?P sessions d ?f])
  with s show ?thesis
    by (simp add: getSessionById_def updateSessionTokens_def)
qed


lemma getSessionById_id:
  "getSessionById sessions sid = Some s \<Longrightarrow> id' s = sid"
  by (auto simp: getSessionById_def find_Some_iff)

section \<open>Properties of refresh\<close>

lemma refreshPrepare_Inr:
  assumes "refreshPrepare svc sessions now m = Inr p"
  obtains sid a r d where
    "encryptedSessionId m \<noteq> []" "encryptedAccessToken m \<noteq> []" "encryptedRefreshToken m \<noteq> []"
    "decryptString (cryptoService svc) (encryptedSessionId m) = Some sid"
    "getSessionById sessions sid = Some (loadedSession p)"
    "\<not> endsAt (loadedSession p) < now"
    "decryptString (cryptoService svc) (encryptedAccessToken m) = Some a"
    "decryptString (cryptoService svc) (encryptedRefreshToken m) = Some r"
    "accessToken (loadedSession p) = a" "refreshToken (loadedSession p) = r"
    "verifyRefreshToken svc r a now = Inr d"
    "decodedUser p = payloadUser d"
    "newAccessToken p = generateAccessToken svc (payloadUser d) now"
    "newRefreshToken p = generateRefreshToken svc (payloadUser d) (newAccessToken p) now"
  using assms that
  by (auto simp: refreshPrepare_def Let_def split: if_splits option.splits sum.splits)

lemma refresh_Inr:
  assumes "refresh svc sessions now ivs m = (sessions', Inr c)"
  obtains p where
    "refreshPrepare svc sessions now m = Inr p"
    "sessions' = updateSessionTokens sessions (id' (loadedSession p))
                   (newAccessToken p, newRefreshToken p) now"
    "c = generateAuthenticationCredentialsModel svc ivs (decodedUser p)
           (newAccessToken p) (newRefreshToken p) (id' (loadedSession p))"
  using assms that
  by (auto simp: refresh_def refreshCommit_def split: sum.splits)

lemma example_refresh_succeeds:
  "\<not> isl (snd (refresh exampleService exampleSessions 2 exampleIvs exampleRefresh))"
  by code_simp

lemma example_refresh_stored:
  "getSessionById (fst (refresh exampleService exampleSessions 2 exampleIvs exampleRefresh)) ''s1''
   = Some (webSession\<lparr> accessToken := ''access++'', refreshToken := ''refresh(access++)++'',
                        updatedAt := 2 \<rparr>)"
  by code_simp

text \<open>
  C7. A successful \<open>refresh\<close> replaces the token pair of the session it loaded (and the
  plugin's \<open>updatedAt\<close>) and nothing else: in every stored session the id, \<open>endsAt\<close>,
  principal, address, user agent, platform, \<open>startedAt\<close>, \<open>createdAt\<close> and tombstone
  are as before, every other session is the same document as before, and the result
  carries the loaded session's id, encrypted, with the new pair.
\<close>

theorem refresh_replaces_only_the_token_pair:
  assumes "refresh svc sessions now (iv1, iv2, iv3) m = (sessions', Inr credentials)"
  shows "\<exists>sessionId session newAccessTok newRefreshTok.
           decryptString (cryptoService svc) (encryptedSessionId m) = Some sessionId
         \<and> getSessionById sessions sessionId = Some session
         \<and> getSessionById sessions' sessionId
             = Some (session\<lparr> accessToken := newAccessTok, refreshToken := newRefreshTok,
                              updatedAt := now \<rparr>)
         \<and> map (\<lambda>d. (sessionFrame (entity d), isDeleted d)) sessions'
             = map (\<lambda>d. (sessionFrame (entity d), isDeleted d)) sessions
         \<and> filter (\<lambda>d. id' (entity d) \<noteq> sessionId) sessions'
             = filter (\<lambda>d. id' (entity d) \<noteq> sessionId) sessions
         \<and> credSessionId credentials = encryptString (cryptoService svc) iv3 (id' session)
         \<and> credAccessToken credentials = encryptString (cryptoService svc) iv1 newAccessTok
         \<and> credRefreshToken credentials = encryptString (cryptoService svc) iv2 newRefreshTok"
proof -
  from assms obtain p where
    p: "refreshPrepare svc sessions now m = Inr p"
    and s': "sessions' = updateSessionTokens sessions (id' (loadedSession p))
                   (newAccessToken p, newRefreshToken p) now"
    and c: "credentials = generateAuthenticationCredentialsModel svc (iv1, iv2, iv3) (decodedUser p)
           (newAccessToken p) (newRefreshToken p) (id' (loadedSession p))"
    by (rule refresh_Inr)
  from p obtain sid where
    sid: "decryptString (cryptoService svc) (encryptedSessionId m) = Some sid"
    and found: "getSessionById sessions sid = Some (loadedSession p)"
    by (rule refreshPrepare_Inr)
  have id: "id' (loadedSession p) = sid"
    using found by (rule getSessionById_id)
  have stored: "getSessionById sessions' sid
       = Some ((loadedSession p)\<lparr> accessToken := newAccessToken p, refreshToken := newRefreshToken p,
                                 updatedAt := now \<rparr>)"
    using getSessionById_updateSessionTokens [OF found, of "(newAccessToken p, newRefreshToken p)" now]
    by (simp add: s' id)
  have frame: "map (\<lambda>d. (sessionFrame (entity d), isDeleted d)) sessions'
             = map (\<lambda>d. (sessionFrame (entity d), isDeleted d)) sessions"
    unfolding s' updateSessionTokens_def
    by (rule map_updateFirst) (simp add: sessionFrame_def)
  have others: "filter (\<lambda>d. id' (entity d) \<noteq> sid) sessions'
             = filter (\<lambda>d. id' (entity d) \<noteq> sid) sessions"
    unfolding s' updateSessionTokens_def id
    by (rule filter_updateFirst) simp_all
  show ?thesis
    using sid found stored frame others
    by (auto simp: c id generateAuthenticationCredentialsModel_def)
qed

theorem refresh_replaces_only_the_token_pair_witness:
  "\<not> isl (snd (refresh exampleService exampleSessions 2 exampleIvs exampleRefresh))
   \<and> map (\<lambda>d. (sessionFrame (entity d), isDeleted d))
        (fst (refresh exampleService exampleSessions 2 exampleIvs exampleRefresh))
     = map (\<lambda>d. (sessionFrame (entity d), isDeleted d)) exampleSessions
   \<and> filter (\<lambda>d. id' (entity d) \<noteq> ''s1'')
        (fst (refresh exampleService exampleSessions 2 exampleIvs exampleRefresh))
     = filter (\<lambda>d. id' (entity d) \<noteq> ''s1'') exampleSessions
   \<and> map_option endsAt
        (getSessionById (fst (refresh exampleService exampleSessions 2 exampleIvs exampleRefresh)) ''s1'')
     = Some 100"
proof -
  obtain sessions' r where run:
    "refresh exampleService exampleSessions 2 (replicate 12 1, replicate 12 2, replicate 12 3)
       exampleRefresh = (sessions', r)"
    by (cases "refresh exampleService exampleSessions 2 (replicate 12 1, replicate 12 2, replicate 12 3)
                 exampleRefresh")
  then have run': "refresh exampleService exampleSessions 2 exampleIvs exampleRefresh = (sessions', r)"
    by (simp add: exampleIvs_def)
  from example_refresh_succeeds run' obtain credentials where r: "r = Inr credentials"
    by (cases r) auto
  have sid: "decryptString (cryptoService exampleService) (encryptedSessionId exampleRefresh) = Some ''s1''"
    by (simp add: exampleService_def exampleRefresh_def sealed_opens)
  from refresh_replaces_only_the_token_pair [OF run [unfolded r]] sid
  have "map (\<lambda>d. (sessionFrame (entity d), isDeleted d)) sessions'
          = map (\<lambda>d. (sessionFrame (entity d), isDeleted d)) exampleSessions"
    and "filter (\<lambda>d. id' (entity d) \<noteq> ''s1'') sessions'
          = filter (\<lambda>d. id' (entity d) \<noteq> ''s1'') exampleSessions"
    by auto
  moreover have "map_option endsAt (getSessionById sessions' ''s1'') = Some 100"
    using example_refresh_stored run' by (simp add: webSession_def)
  ultimately show ?thesis
    using example_refresh_succeeds run' by simp
qed




lemma verifyRefreshToken_never_invalid:
  "verifyRefreshToken svc refreshTok accessTok now \<noteq> Inl (HttpException ''INVALID_REFRESH_TOKEN'' UNAUTHORIZED)"
  by (simp add: verifyRefreshToken_def split: sum.splits)





section \<open>Properties of concurrent refresh calls\<close>

lemma runSchedule_sequential:
  "runSchedule svc [0, 0] (sessions, [Arrived call])
   = (fst (refresh svc sessions (callNow call) (callIvs call) (callModel call)),
      [Returned (snd (refresh svc sessions (callNow call) (callIvs call) (callModel call)))])"
  by (simp add: stepTask_def refresh_def split: sum.splits prod.splits)

lemma updateSessionTokens_unconditional:
  assumes "getSessionById sessions sid = Some s"
  shows "map_option (\<lambda>s'. (accessToken s', refreshToken s'))
           (getSessionById (updateSessionTokens sessions sid (a, r) now) sid) = Some (a, r)"
  using getSessionById_updateSessionTokens [OF assms, of "(a, r)" now] by simp

text \<open>
  C1. \<open>updateSessionTokens\<close> is an update by session id alone: it carries no condition on
  the pair that is stored. When two calls have both read the collection before either
  writes (schedule 0, 1, 0, 1), and both pass their checks on that collection, both
  return a new pair, and the collection ends with both updates applied in turn; if they
  refresh the same session, the stored pair is the one of the call that wrote last.
\<close>

theorem overlapping_refresh_last_write_wins:
  assumes p1: "refreshPrepare svc sessions (callNow c1) (callModel c1) = Inr p1"
    and p2: "refreshPrepare svc sessions (callNow c2) (callModel c2) = Inr p2"
  shows "runSchedule svc [0, 1, 0, 1] (sessions, [Arrived c1, Arrived c2])
       = (updateSessionTokens
            (updateSessionTokens sessions (id' (loadedSession p1))
               (newAccessToken p1, newRefreshToken p1) (callNow c1))
            (id' (loadedSession p2)) (newAccessToken p2, newRefreshToken p2) (callNow c2),
          [Returned (Inr (generateAuthenticationCredentialsModel svc (callIvs c1) (decodedUser p1)
                            (newAccessToken p1) (newRefreshToken p1) (id' (loadedSession p1)))),
           Returned (Inr (generateAuthenticationCredentialsModel svc (callIvs c2) (decodedUser p2)
                            (newAccessToken p2) (newRefreshToken p2) (id' (loadedSession p2))))])
       \<and> (id' (loadedSession p1) = id' (loadedSession p2) \<longrightarrow>
            map_option (\<lambda>s. (accessToken s, refreshToken s))
              (getSessionById
                 (fst (runSchedule svc [0, 1, 0, 1] (sessions, [Arrived c1, Arrived c2])))
                 (id' (loadedSession p2)))
            = Some (newAccessToken p2, newRefreshToken p2))"
proof -
  let ?s1 = "updateSessionTokens sessions (id' (loadedSession p1))
               (newAccessToken p1, newRefreshToken p1) (callNow c1)"
  have run: "runSchedule svc [0, 1, 0, 1] (sessions, [Arrived c1, Arrived c2])
       = (updateSessionTokens ?s1 (id' (loadedSession p2))
            (newAccessToken p2, newRefreshToken p2) (callNow c2),
          [Returned (Inr (generateAuthenticationCredentialsModel svc (callIvs c1) (decodedUser p1)
                            (newAccessToken p1) (newRefreshToken p1) (id' (loadedSession p1)))),
           Returned (Inr (generateAuthenticationCredentialsModel svc (callIvs c2) (decodedUser p2)
                            (newAccessToken p2) (newRefreshToken p2) (id' (loadedSession p2))))])"
    using p1 p2 by (simp add: stepTask_def refreshCommit_def)
  have last: "map_option (\<lambda>s. (accessToken s, refreshToken s))
              (getSessionById
                 (updateSessionTokens ?s1 (id' (loadedSession p2))
                    (newAccessToken p2, newRefreshToken p2) (callNow c2))
                 (id' (loadedSession p2)))
            = Some (newAccessToken p2, newRefreshToken p2)"
    if same: "id' (loadedSession p1) = id' (loadedSession p2)"
  proof -
    from p1 obtain sid where found: "getSessionById sessions sid = Some (loadedSession p1)"
      by (rule refreshPrepare_Inr)
    then have "id' (loadedSession p1) = sid" by (rule getSessionById_id)
    with found same have "getSessionById sessions (id' (loadedSession p2)) = Some (loadedSession p1)"
      by simp
    then have "getSessionById ?s1 (id' (loadedSession p2))
             = Some ((loadedSession p1)\<lparr> accessToken := newAccessToken p1,
                       refreshToken := newRefreshToken p1, updatedAt := callNow c1 \<rparr>)"
      using getSessionById_updateSessionTokens
              [of sessions "id' (loadedSession p2)" "loadedSession p1"
                  "(newAccessToken p1, newRefreshToken p1)" "callNow c1"]
      by (simp add: same)
    then show ?thesis by (rule updateSessionTokens_unconditional)
  qed
  show ?thesis using run last by simp
qed

theorem overlapping_refresh_last_write_wins_witness:
  "\<not> isl (refreshPrepare exampleService exampleSessions (callNow firstCall) (callModel firstCall))
   \<and> \<not> isl (refreshPrepare exampleService exampleSessions (callNow secondCall) (callModel secondCall))
   \<and> map succeeded (snd (runSchedule exampleService [0, 1, 0, 1]
                            (exampleSessions, [Arrived firstCall, Arrived secondCall])))
       = [True, True]
   \<and> map_option (\<lambda>s. (accessToken s, refreshToken s))
        (getSessionById (fst (runSchedule exampleService [0, 1, 0, 1]
                                (exampleSessions, [Arrived firstCall, Arrived secondCall]))) ''s1'')
       = Some (''access+++'', ''refresh(access+++)+++'')"
proof -
  have ok1: "\<not> isl (refreshPrepare exampleService exampleSessions (callNow firstCall) (callModel firstCall))"
    and ok2: "\<not> isl (refreshPrepare exampleService exampleSessions (callNow secondCall) (callModel secondCall))"
    by code_simp+
  then obtain p1 p2 where
    p1: "refreshPrepare exampleService exampleSessions (callNow firstCall) (callModel firstCall) = Inr p1"
    and p2: "refreshPrepare exampleService exampleSessions (callNow secondCall) (callModel secondCall) = Inr p2"
    by (metis sum.collapse(2))
  have l1: "map_sum (\<lambda>e. e) (\<lambda>p. id' (loadedSession p))
              (refreshPrepare exampleService exampleSessions (callNow firstCall) (callModel firstCall))
            = Inr ''s1''"
    and l2: "map_sum (\<lambda>e. e) (\<lambda>p. (id' (loadedSession p), newAccessToken p, newRefreshToken p))
              (refreshPrepare exampleService exampleSessions (callNow secondCall) (callModel secondCall))
            = Inr (''s1'', ''access+++'', ''refresh(access+++)+++'')"
    by code_simp+
  from l1 p1 have i1: "id' (loadedSession p1) = ''s1''" by simp
  from l2 p2 have i2: "id' (loadedSession p2) = ''s1''"
    and n2: "newAccessToken p2 = ''access+++''" "newRefreshToken p2 = ''refresh(access+++)+++''"
    by simp_all
  let ?run = "runSchedule exampleService [0, 1, 0, 1]
                (exampleSessions, [Arrived firstCall, Arrived secondCall])"
  note both = overlapping_refresh_last_write_wins [OF p1 p2]
  have same: "id' (loadedSession p1) = id' (loadedSession p2)"
    using i1 i2 by simp
  have succ: "map succeeded (snd ?run) = [True, True]"
    by (simp only: both [THEN conjunct1] snd_conv list.map succeeded_def
          RefreshTask.case sum.case)
  have last: "map_option (\<lambda>s. (accessToken s, refreshToken s)) (getSessionById (fst ?run) ''s1'')
            = Some (''access+++'', ''refresh(access+++)+++'')"
    using both [THEN conjunct2, THEN mp, OF same] by (simp only: i2 n2)
  from ok1 ok2 succ last show ?thesis by (intro conjI)
qed

text \<open>
  Two calls with the same valid triple, the second read taken before the first write:
  both return a new pair, and the collection ends with the pair of the second call; the
  pair returned to the first caller is no longer stored.
\<close>

theorem concurrent_refresh_counterexample:
  "map succeeded (snd (runSchedule exampleService [0, 1, 0, 1]
                         (exampleSessions, [Arrived firstCall, Arrived secondCall])))
     = [True, True]
   \<and> map_option accessToken
        (getSessionById (fst (runSchedule exampleService [0, 1, 0, 1]
                                (exampleSessions, [Arrived firstCall, Arrived secondCall]))) ''s1'')
     = Some ''access+++''"
  by code_simp

section \<open>Properties of sign-in\<close>


lemma signIn_unknown_identifier:
  assumes "findUserByCredentials users (identifier' m) = None"
  shows "signIn svc users sessions newId now ivs m
       = (sessions, Inl (HttpException ''INVALID_CREDENTIALS'' NOT_FOUND))"
  using assms by (simp add: signIn_def getUserByCredentials_def)

lemma signIn_wrong_secret:
  assumes "findUserByCredentials users (identifier' m) = Some userCredentialsModel"
    and "\<not> bcryptCompare svc (password m) (authPassword userCredentialsModel)"
  shows "signIn svc users sessions newId now ivs m
       = (sessions, Inl (HttpException ''INVALID_CREDENTIALS'' UNAUTHORIZED))"
  using assms by (simp add: signIn_def getUserByCredentials_def)



text \<open>
  C8. An unknown identifier is rejected by \<open>getUserByCredentials\<close> with the code
  \<open>INVALID_CREDENTIALS\<close> under the status \<open>NOT_FOUND\<close>; a wrong secret is rejected by
  \<open>signIn\<close> with the same code under \<open>UNAUTHORIZED\<close>. Neither call changes the session
  collection.
\<close>

theorem signIn_rejections_differ_in_status:
  "(findUserByCredentials users (identifier' m) = None \<longrightarrow>
      signIn svc users sessions newId now ivs m
        = (sessions, Inl (HttpException ''INVALID_CREDENTIALS'' NOT_FOUND)))
   \<and> (findUserByCredentials users (identifier' m) = Some userCredentialsModel \<longrightarrow>
      \<not> bcryptCompare svc (password m) (authPassword userCredentialsModel) \<longrightarrow>
      signIn svc users sessions newId now ivs m
        = (sessions, Inl (HttpException ''INVALID_CREDENTIALS'' UNAUTHORIZED)))"
  using signIn_unknown_identifier [of users m svc sessions newId now ivs]
        signIn_wrong_secret [of users m userCredentialsModel svc sessions newId now ivs]
  by blast

theorem signIn_rejections_differ_in_status_witness:
  "findUserByCredentials exampleUsers (identifier' unknownIdentifier) = None
   \<and> signIn exampleService exampleUsers exampleSessions ''s3'' 5 exampleIvs unknownIdentifier
       = (exampleSessions, Inl (HttpException ''INVALID_CREDENTIALS'' NOT_FOUND))
   \<and> findUserByCredentials exampleUsers (identifier' wrongSecret)
       = Some (toAuthenticationCredentialsModel alice)
   \<and> \<not> bcryptCompare exampleService (password wrongSecret)
          (authPassword (toAuthenticationCredentialsModel alice))
   \<and> signIn exampleService exampleUsers exampleSessions ''s3'' 5 exampleIvs wrongSecret
       = (exampleSessions, Inl (HttpException ''INVALID_CREDENTIALS'' UNAUTHORIZED))"
proof -
  have unknown: "findUserByCredentials exampleUsers (identifier' unknownIdentifier) = None"
    by code_simp
  have known: "findUserByCredentials exampleUsers (identifier' wrongSecret)
       = Some (toAuthenticationCredentialsModel alice)"
    by code_simp
  have wrong: "\<not> bcryptCompare exampleService (password wrongSecret)
          (authPassword (toAuthenticationCredentialsModel alice))"
    by code_simp
  from signIn_rejections_differ_in_status
         [of exampleUsers unknownIdentifier exampleService exampleSessions "''s3''" 5 exampleIvs
             "toAuthenticationCredentialsModel alice"]
       signIn_rejections_differ_in_status
         [of exampleUsers wrongSecret exampleService exampleSessions "''s3''" 5 exampleIvs
             "toAuthenticationCredentialsModel alice"]
       unknown known wrong
  show ?thesis by blast
qed

section \<open>Properties of sign-out\<close>




section \<open>Properties of the authentication guard\<close>

lemma getAccessToken_invalid_iff:
  "getAccessToken cs header = Inl (HttpException ''INVALID_ACCESS_TOKEN'' UNAUTHORIZED)
   \<longleftrightarrow> (\<exists>raw type rest.
          ((header = Some (Single raw) \<and> raw \<noteq> []) \<or> (\<exists>more. header = Some (Multiple (raw # more))))
          \<and> split CHR '' '' raw = type # rest \<and> type \<noteq> ''Bearer'')"
  by (auto simp: getAccessToken_def split: option.splits HeaderValue.splits list.splits if_splits)

text \<open>
  C10. Once the presented access token equals the stored one, every failure of the token
  verification, whatever its kind, leaves \<open>canActivate\<close> as \<open>EXPIRED_ACCESS_TOKEN\<close>. The
  code \<open>INVALID_ACCESS_TOKEN\<close> comes only from \<open>getAccessToken\<close>, which throws it
  exactly for a header whose first word is not \<open>Bearer\<close>, or from the comparison with
  the stored token.
\<close>

theorem canActivate_token_failures:
  "(getAccessToken (cryptoService svc) (authorization request) = Inr accessTok \<longrightarrow>
    getSessionId (cryptoService svc) (sessionIdCookie request) = Inr sessionId \<longrightarrow>
    getSessionById sessions sessionId = Some session \<longrightarrow>
    \<not> endsAt session < now \<longrightarrow>
    accessToken session = accessTok \<longrightarrow>
    jwtVerifyAsync svc accessTok now = Inl failure \<longrightarrow>
      canActivate svc sessions now request = Inl (HttpException ''EXPIRED_ACCESS_TOKEN'' UNAUTHORIZED))
   \<and> (canActivate svc sessions now request = Inl (HttpException ''INVALID_ACCESS_TOKEN'' UNAUTHORIZED) \<longrightarrow>
        getAccessToken (cryptoService svc) (authorization request)
          = Inl (HttpException ''INVALID_ACCESS_TOKEN'' UNAUTHORIZED)
        \<or> (\<exists>presented sid stored.
              getAccessToken (cryptoService svc) (authorization request) = Inr presented
            \<and> getSessionId (cryptoService svc) (sessionIdCookie request) = Inr sid
            \<and> getSessionById sessions sid = Some stored
            \<and> \<not> endsAt stored < now
            \<and> accessToken stored \<noteq> presented))
   \<and> (getAccessToken (cryptoService svc) (authorization request)
         = Inl (HttpException ''INVALID_ACCESS_TOKEN'' UNAUTHORIZED)
       \<longleftrightarrow> (\<exists>raw type rest.
              ((authorization request = Some (Single raw) \<and> raw \<noteq> [])
               \<or> (\<exists>more. authorization request = Some (Multiple (raw # more))))
              \<and> split CHR '' '' raw = type # rest \<and> type \<noteq> ''Bearer''))"
proof (intro conjI impI)
  assume "getAccessToken (cryptoService svc) (authorization request) = Inr accessTok"
    and "getSessionId (cryptoService svc) (sessionIdCookie request) = Inr sessionId"
    and "getSessionById sessions sessionId = Some session"
    and "\<not> endsAt session < now"
    and "accessToken session = accessTok"
    and "jwtVerifyAsync svc accessTok now = Inl failure"
  then show "canActivate svc sessions now request
           = Inl (HttpException ''EXPIRED_ACCESS_TOKEN'' UNAUTHORIZED)"
    by (simp add: canActivate_def verifyAccessToken_def)
next
  assume "canActivate svc sessions now request = Inl (HttpException ''INVALID_ACCESS_TOKEN'' UNAUTHORIZED)"
  then show "getAccessToken (cryptoService svc) (authorization request)
          = Inl (HttpException ''INVALID_ACCESS_TOKEN'' UNAUTHORIZED)
        \<or> (\<exists>presented sid stored.
              getAccessToken (cryptoService svc) (authorization request) = Inr presented
            \<and> getSessionId (cryptoService svc) (sessionIdCookie request) = Inr sid
            \<and> getSessionById sessions sid = Some stored
            \<and> \<not> endsAt stored < now
            \<and> accessToken stored \<noteq> presented)"
    by (auto simp: canActivate_def getSessionId_def
          split: sum.splits option.splits if_splits)
next
  show "getAccessToken (cryptoService svc) (authorization request)
         = Inl (HttpException ''INVALID_ACCESS_TOKEN'' UNAUTHORIZED)
       \<longleftrightarrow> (\<exists>raw type rest.
              ((authorization request = Some (Single raw) \<and> raw \<noteq> [])
               \<or> (\<exists>more. authorization request = Some (Multiple (raw # more))))
              \<and> split CHR '' '' raw = type # rest \<and> type \<noteq> ''Bearer'')"
    by (rule getAccessToken_invalid_iff)
qed

theorem canActivate_token_failures_witness:
  "exampleVerify ''A0'' 20 = Inl TokenExpiredError
   \<and> canActivate exampleService exampleSessions 20 (bearer ''A0'' ''s1'')
       = Inl (HttpException ''EXPIRED_ACCESS_TOKEN'' UNAUTHORIZED)
   \<and> exampleVerify ''forged'' 5 = Inl JsonWebTokenError
   \<and> canActivate exampleService forgedSessions 5 (bearer ''forged'' ''s1'')
       = Inl (HttpException ''EXPIRED_ACCESS_TOKEN'' UNAUTHORIZED)
   \<and> canActivate exampleService exampleSessions 5 (bearer ''Am'' ''s1'')
       = Inl (HttpException ''INVALID_ACCESS_TOKEN'' UNAUTHORIZED)
   \<and> canActivate exampleService exampleSessions 5
        \<lparr> authorization = Some (Single ''Basic abc''), sessionIdCookie = Some (sealed ''s1'') \<rparr>
       = Inl (HttpException ''INVALID_ACCESS_TOKEN'' UNAUTHORIZED)"
proof -
  have verify: "jwtVerifyAsync exampleService = exampleVerify"
    by (simp add: exampleService_def)
  have expired: "exampleVerify ''A0'' 20 = Inl TokenExpiredError"
    and forged: "exampleVerify ''forged'' 5 = Inl JsonWebTokenError"
    by (simp_all add: exampleVerify_def)
  have t1: "getAccessToken (cryptoService exampleService) (authorization (bearer ''A0'' ''s1'')) = Inr ''A0''"
    by code_simp
  have t2: "getAccessToken (cryptoService exampleService) (authorization (bearer ''forged'' ''s1''))
            = Inr ''forged''"
    by code_simp
  have c1: "getSessionId (cryptoService exampleService) (sessionIdCookie (bearer ''A0'' ''s1'')) = Inr ''s1''"
    by code_simp
  have c2: "getSessionId (cryptoService exampleService) (sessionIdCookie (bearer ''forged'' ''s1''))
            = Inr ''s1''"
    by code_simp
  have s1: "getSessionById exampleSessions ''s1'' = Some webSession"
    by code_simp
  have s2: "getSessionById forgedSessions ''s1'' = Some (webSession\<lparr> accessToken := ''forged'' \<rparr>)"
    by code_simp
  have w1: "\<not> endsAt webSession < 20" "accessToken webSession = ''A0''"
    by (simp_all add: webSession_def)
  have w2: "\<not> endsAt (webSession\<lparr> accessToken := ''forged'' \<rparr>) < 5"
    "accessToken (webSession\<lparr> accessToken := ''forged'' \<rparr>) = ''forged''"
    by (simp_all add: webSession_def)
  have r1: "canActivate exampleService exampleSessions 20 (bearer ''A0'' ''s1'')
       = Inl (HttpException ''EXPIRED_ACCESS_TOKEN'' UNAUTHORIZED)"
    using canActivate_token_failures
            [of exampleService "bearer ''A0'' ''s1''" "''A0''" "''s1''" exampleSessions webSession 20
                TokenExpiredError]
          t1 c1 s1 w1 expired
    by (simp add: verify)
  have r2: "canActivate exampleService forgedSessions 5 (bearer ''forged'' ''s1'')
       = Inl (HttpException ''EXPIRED_ACCESS_TOKEN'' UNAUTHORIZED)"
    using canActivate_token_failures
            [of exampleService "bearer ''forged'' ''s1''" "''forged''" "''s1''" forgedSessions
                "webSession\<lparr> accessToken := ''forged'' \<rparr>" 5 JsonWebTokenError]
          t2 c2 s2 w2 forged
    by (simp add: verify)
  have r3: "canActivate exampleService exampleSessions 5 (bearer ''Am'' ''s1'')
       = Inl (HttpException ''INVALID_ACCESS_TOKEN'' UNAUTHORIZED)"
    by code_simp
  have r4: "canActivate exampleService exampleSessions 5
        \<lparr> authorization = Some (Single ''Basic abc''), sessionIdCookie = Some (sealed ''s1'') \<rparr>
       = Inl (HttpException ''INVALID_ACCESS_TOKEN'' UNAUTHORIZED)"
    by code_simp
  from expired forged r1 r2 r3 r4 show ?thesis by simp
qed

end
